theory Spec2Isabelle
  imports Main "HOL-Library.Char_ord"
begin

section \<open>JavaScript values and string primitives\<close>

text \<open>
  The fields of a device record are strings that may be missing. JavaScript has two
  missing values, \<open>undefined\<close> and \<open>null\<close>; strict equality \<open>===\<close> on
  these three kinds of value is equality of the constructors below (\<open>null === undefined\<close>
  is false, two strings are equal when they have the same characters).
\<close>

datatype jsval = Undefined | Null | Str string

text \<open>Truthiness as used by \<open>a && b\<close> and \<open>if (a)\<close>: a string is truthy unless empty.\<close>

fun truthy :: "jsval \<Rightarrow> bool" where
  "truthy (Str s) = (s \<noteq> [])"
| "truthy Undefined = False"
| "truthy Null = False"

text \<open>
  \<open>String.prototype.split\<close> with a one-character separator: scan the string, closing the
  current piece at every separator. The result always has at least one piece
  (\<open>"".split(" ")\<close> is \<open>[""]\<close>).
\<close>

fun split_from :: "char \<Rightarrow> string \<Rightarrow> string \<Rightarrow> string list" where
  "split_from sep cur [] = [cur]"
| "split_from sep cur (c # cs) =
     (if c = sep then cur # split_from sep [] cs else split_from sep (cur @ [c]) cs)"

definition split :: "char \<Rightarrow> string \<Rightarrow> string list" where
  "split sep s = split_from sep [] s"

text \<open>Indexing an array: out of range gives \<open>undefined\<close>.\<close>

fun at_index :: "string list \<Rightarrow> nat \<Rightarrow> jsval" where
  "at_index [] n = Undefined"
| "at_index (x # xs) 0 = Str x"
| "at_index (x # xs) (Suc n) = at_index xs n"

text \<open>\<open>Array.prototype.slice(0, n)\<close> and \<open>Array.prototype.join\<close>.\<close>

definition slice0 :: "nat \<Rightarrow> 'a list \<Rightarrow> 'a list" where
  "slice0 n xs = take n xs"

fun join :: "string \<Rightarrow> string list \<Rightarrow> string" where
  "join sep [] = []"
| "join sep [x] = x"
| "join sep (x # y # ys) = x @ sep @ join sep (y # ys)"


section \<open>Device confidence (src/utils/auth.ts)\<close>

record TDeviceInfo =
  device_name :: jsval
  browser :: jsval
  os :: jsval
  ip_address :: jsval

record TDeviceSession =
  session_id :: string
  device :: TDeviceInfo

text \<open>The body of the callback given to \<open>storedSessions.map\<close>.\<close>

definition session_score :: "TDeviceSession \<Rightarrow> TDeviceInfo \<Rightarrow> int" where
  "session_score session current =
     (let score = 0;
          stored = device session;
          score = (if device_name stored = device_name current then score + 30 else score);
          score = (if browser stored = browser current then score + 20 else score);
          score =
            (case (os stored, os current) of
               (Str so, Str co) \<Rightarrow>
                 if truthy (Str so) \<and> truthy (Str co) then
                   (let storedBase = at_index (split CHR '' '' so) 0;
                        currentBase = at_index (split CHR '' '' co) 0
                    in if storedBase = currentBase then score + 20 else score)
                 else score
             | _ \<Rightarrow> score);
          score =
            (case (ip_address stored, ip_address current) of
               (Str si, Str ci) \<Rightarrow>
                 if truthy (Str si) \<and> truthy (Str ci) then
                   (let storedIP = join ''.'' (slice0 3 (split CHR ''.'' si));
                        currentIP = join ''.'' (slice0 3 (split CHR ''.'' ci))
                    in if storedIP = currentIP then score + 15 else score)
                 else score
             | _ \<Rightarrow> score)
      in score)"

text \<open>
  \<open>Math.max(...scores)\<close> is only reached with a non-empty array, so it is the maximum of
  the first score and the others. A \<open>null\<close> history is \<open>None\<close>.
\<close>

definition calculateDeviceConfidence :: "TDeviceSession list option \<Rightarrow> TDeviceInfo \<Rightarrow> int" where
  "calculateDeviceConfidence storedSessions current =
     (case storedSessions of
        None \<Rightarrow> 100
      | Some [] \<Rightarrow> 100
      | Some (s # ss) \<Rightarrow>
          (let scores = map (\<lambda>session. session_score session current) (s # ss)
           in fold max (tl scores) (hd scores)))"

datatype confidence_level = High | Medium | Low

definition getConfidenceLevel :: "int \<Rightarrow> confidence_level" where
  "getConfidenceLevel score =
     (if score \<ge> 70 then High else if score \<ge> 40 then Medium else Low)"


section \<open>Two-factor requirements (src/utils/auth.ts)\<close>

text \<open>
  A factor as listed by the provider, the provider's answer to \<open>mfa.listFactors()\<close>
  (\<open>{ data, error }\<close>, either of which may be null), and the configuration object
  \<open>AUTH_CONFIG\<close>, which the source imports from a module outside this development
  and which is therefore an argument here. Method types are strings at run time.
\<close>

record Factor =
  id_f :: string
  status :: string

record AuthError =
  message :: string

record MFAFactors =
  totp :: "Factor list option"
  phone :: "Factor list option"

record ListFactorsResponse =
  data :: "MFAFactors option"
  factorsError :: "AuthError option"

record SupabaseClient =
  mfa_listFactors :: ListFactorsResponse

record TwoFactorMethodConfig =
  method_type :: string
  method_enabled :: bool

record TwoFactorAuthConfig =
  enabled :: bool
  methods :: "TwoFactorMethodConfig list"

record AuthConfig =
  twoFactorAuth :: TwoFactorAuthConfig
  api_rate_limit_enabled :: bool

record TwoFactorMethodEntry =
  type :: string
  factorId :: string

text \<open>
  \<open>{ requiresTwoFactor: false }\<close> or
  \<open>{ requiresTwoFactor: true, factorId, availableMethods }\<close>.
\<close>

datatype TwoFactorRequirement =
  NotRequired
| Required string "TwoFactorMethodEntry list"

fun requiresTwoFactor :: "TwoFactorRequirement \<Rightarrow> bool" where
  "requiresTwoFactor NotRequired = False"
| "requiresTwoFactor (Required fid ms) = True"

text \<open>A thrown \<open>new Error(message)\<close>, and what a call does besides returning.\<close>

datatype exn = Error string

datatype event = ListFactorsCall | ConsoleError string

definition getMostTrustedTwoFactorMethod ::
  "TwoFactorMethodEntry list option \<Rightarrow> TwoFactorMethodEntry option" where
  "getMostTrustedTwoFactorMethod methods_opt =
     (case methods_opt of
        None \<Rightarrow> None
      | Some ms \<Rightarrow>
          if length ms = 0 then None
          else
            (case find (\<lambda>m. type m = ''authenticator'') ms of
               Some authenticator \<Rightarrow> Some authenticator
             | None \<Rightarrow>
                 (case find (\<lambda>m. type m = ''sms'') ms of
                    Some sms \<Rightarrow> Some sms
                  | None \<Rightarrow> None)))"

text \<open>
  The two blocks that fill \<open>availableMethods\<close>: keep the first verified factor of the
  list, if the list is there and has one.
\<close>

definition push_first_verified ::
  "string \<Rightarrow> Factor list option \<Rightarrow> TwoFactorMethodEntry list \<Rightarrow> TwoFactorMethodEntry list" where
  "push_first_verified method_kind factors availableMethods =
     (case factors of
        None \<Rightarrow> availableMethods
      | Some fs \<Rightarrow>
          (let verified = filter (\<lambda>factor. status factor = ''verified'') fs
           in if length verified > 0
              then availableMethods @ [\<lparr>type = method_kind, factorId = id_f (verified ! 0)\<rparr>]
              else availableMethods))"

definition checkTwoFactorRequirements ::
  "AuthConfig \<Rightarrow> SupabaseClient \<Rightarrow> (exn + TwoFactorRequirement) \<times> event list" where
  "checkTwoFactorRequirements AUTH_CONFIG supabase =
     (if \<not> enabled (twoFactorAuth AUTH_CONFIG) then (Inr NotRequired, [])
      else
        (let enabledMethods = filter method_enabled (methods (twoFactorAuth AUTH_CONFIG))
         in if length enabledMethods = 0 then (Inr NotRequired, [])
            else
              (let response = mfa_listFactors supabase
               in case factorsError response of
                    Some e \<Rightarrow>
                      (Inl (Error ''Failed to check 2FA status''),
                       [ListFactorsCall, ConsoleError ''Error getting MFA factors:''])
                  | None \<Rightarrow>
                      (let availableMethods = [];
                           availableMethods =
                             (case data response of
                                None \<Rightarrow> availableMethods
                              | Some d \<Rightarrow> push_first_verified ''authenticator'' (totp d) availableMethods);
                           availableMethods =
                             (case data response of
                                None \<Rightarrow> availableMethods
                              | Some d \<Rightarrow> push_first_verified ''sms'' (phone d) availableMethods)
                       in if length availableMethods > 0 then
                            (case getMostTrustedTwoFactorMethod (Some availableMethods) of
                               None \<Rightarrow> (Inl (Error ''No default 2FA method found''), [ListFactorsCall])
                             | Some defaultMethod \<Rightarrow>
                                 (Inr (Required (factorId defaultMethod) availableMethods),
                                  [ListFactorsCall]))
                          else (Inr NotRequired, [ListFactorsCall])))))"


section \<open>Validation schemas (src/utils/validation/auth-validation.ts)\<close>

text \<open>
  The regular expressions of the schemas use literals, character ranges, sequencing and
  bounded repetition. \<open>rests r s\<close> lists what can remain of \<open>s\<close> after \<open>r\<close> has
  matched a prefix of it, in every way \<open>r\<close> can; an expression anchored as \<open>/^r$/\<close>
  accepts \<open>s\<close> when nothing can remain.
\<close>

datatype regex =
  Lit char
| CharRange char char
| Seq regex regex
| Rep regex nat nat

fun rep_rests :: "(string \<Rightarrow> string list) \<Rightarrow> nat \<Rightarrow> nat \<Rightarrow> string \<Rightarrow> string list" where
  "rep_rests step lo 0 s = (if lo = 0 then [s] else [])"
| "rep_rests step lo (Suc hi) s =
     (if lo = 0 then [s] else []) @ concat (map (rep_rests step (lo - 1) hi) (step s))"

primrec rests :: "regex \<Rightarrow> string \<Rightarrow> string list" where
  "rests (Lit c) s = (case s of [] \<Rightarrow> [] | x # t \<Rightarrow> if x = c then [t] else [])"
| "rests (CharRange a b) s =
     (case s of [] \<Rightarrow> [] | x # t \<Rightarrow> if a \<le> x \<and> x \<le> b then [t] else [])"
| "rests (Seq r1 r2) s = concat (map (rests r2) (rests r1 s))"
| "rests (Rep r lo hi) s = rep_rests (rests r) lo hi s"

definition regex_test :: "regex \<Rightarrow> string \<Rightarrow> bool" where
  "regex_test r s = ([] \<in> set (rests r s))"

text \<open>
  A string schema is its list of checks, each with its message. Parsing runs every check
  and collects the messages of the failing ones, in order. The shape test behind
  \<open>.email()\<close> belongs to the validation library and is carried by the check.
\<close>

datatype check =
  MinLen nat string
| MaxLen nat string
| Regex regex string
| Email "string \<Rightarrow> bool" string

fun check_issue :: "check \<Rightarrow> string \<Rightarrow> string option" where
  "check_issue (MinLen n msg) s = (if length s < n then Some msg else None)"
| "check_issue (MaxLen n msg) s = (if length s > n then Some msg else None)"
| "check_issue (Regex r msg) s = (if regex_test r s then None else Some msg)"
| "check_issue (Email ok msg) s = (if ok s then None else Some msg)"

definition safeParse :: "check list \<Rightarrow> string \<Rightarrow> string list" where
  "safeParse checks s = List.map_filter (\<lambda>c. check_issue c s) checks"

text \<open>\<open>/^\+[1-9]\d{1,14}$/\<close>\<close>

definition phone_regex :: regex where
  "phone_regex =
     Seq (Lit CHR ''+'')
       (Seq (CharRange CHR ''1'' CHR ''9'') (Rep (CharRange CHR ''0'' CHR ''9'') 1 14))"

definition phoneSchema :: "check list" where
  "phoneSchema =
     [MinLen 1 ''Phone number is required'',
      Regex phone_regex ''Phone number must be in E.164 format (e.g., +1234567890)'']"

record validation =
  isValid :: bool
  error :: "string option"

definition validatePhoneNumber :: "string \<Rightarrow> validation" where
  "validatePhoneNumber phone_number =
     (let issues = safeParse phoneSchema phone_number
      in \<lparr>isValid = (issues = []),
          error = (case issues of [] \<Rightarrow> None | m # _ \<Rightarrow> Some m)\<rparr>)"

text \<open>
  What the validation library does on its own: the e-mail shape test, and the messages it
  gives a value that is not a string and a body that is not an object. They are arguments.
\<close>

record zod_lib =
  isEmail :: "string \<Rightarrow> bool"
  invalidTypeMessage :: "jsval \<Rightarrow> string"
  invalidObjectMessage :: string

definition emailChecks :: "zod_lib \<Rightarrow> check list" where
  "emailChecks zod =
     [MinLen 1 ''Email is required'',
      MaxLen 255 ''Email is too long'',
      Email (isEmail zod) ''Invalid email format'']"

definition passwordChecks :: "check list" where
  "passwordChecks =
     [MinLen 8 ''Password must be at least 8 characters'',
      MaxLen 72 ''Password cannot exceed 72 characters'']"

definition safeParse_value :: "zod_lib \<Rightarrow> check list \<Rightarrow> jsval \<Rightarrow> string list" where
  "safeParse_value zod checks v =
     (case v of Str s \<Rightarrow> safeParse checks s | _ \<Rightarrow> [invalidTypeMessage zod v])"

definition validateEmail :: "zod_lib \<Rightarrow> jsval \<Rightarrow> validation" where
  "validateEmail zod email_value =
     (let issues = safeParse_value zod (emailChecks zod) email_value
      in \<lparr>isValid = (issues = []),
          error = (case issues of [] \<Rightarrow> None | m # _ \<Rightarrow> Some m)\<rparr>)"

text \<open>\<open>m || d\<close> on an optional message: a missing or empty message gives the default.\<close>

definition or_default :: "string option \<Rightarrow> string \<Rightarrow> string" where
  "or_default m d = (case m of None \<Rightarrow> d | Some s \<Rightarrow> if s = [] then d else s)"

text \<open>
  A parsed request body: \<open>null\<close>, an object with its \<open>email\<close> and \<open>password\<close>
  members (\<open>Undefined\<close> when absent), or any other JSON value. The schemas only tell a
  string member from one that is not a string, so a member that is a number, a boolean, an
  array or an object is represented by \<open>Null\<close>.
\<close>

datatype json_body = JsonNull | JsonOther | JsonObject jsval jsval

record AuthSchema =
  email :: string
  password :: string

record form_validation =
  form_error :: "string option"
  form_data :: "AuthSchema option"

definition authSchema_issues :: "zod_lib \<Rightarrow> json_body \<Rightarrow> string list" where
  "authSchema_issues zod body =
     (case body of
        JsonObject e p \<Rightarrow>
          safeParse_value zod (emailChecks zod) e @ safeParse_value zod passwordChecks p
      | _ \<Rightarrow> [invalidObjectMessage zod])"

definition validateFormData :: "zod_lib \<Rightarrow> json_body \<Rightarrow> form_validation" where
  "validateFormData zod body =
     (case authSchema_issues zod body of
        m # _ \<Rightarrow> \<lparr>form_error = Some (or_default (Some m) ''Invalid input''), form_data = None\<rparr>
      | [] \<Rightarrow>
          (case body of
             JsonObject (Str e) (Str p) \<Rightarrow>
               \<lparr>form_error = None, form_data = Some \<lparr>email = e, password = p\<rparr>\<rparr>
           | _ \<Rightarrow> \<lparr>form_error = None, form_data = None\<rparr>))"


section \<open>Request handlers (forgot-password and sign-up routes)\<close>

text \<open>
  An awaited call returns or throws. A request is what the handler reads from its
  surroundings before it calls the provider: the rate limiter (absent when not configured),
  the parsed body and the creation of the client. The provider's answer is a separate
  argument. A handler returns its response together with the calls it made.
\<close>

datatype 'a outcome = Returns 'a | Throws

record request_env =
  authRateLimit :: "bool outcome option"
  request_json :: "json_body outcome"
  createClient :: "unit outcome"

record NextResponse =
  json_error :: "string option"
  http_status :: nat

datatype call = ResetPasswordForEmail jsval | SignUp AuthSchema | ConsoleLog string

definition pass_rate_limit ::
  "bool outcome option \<Rightarrow> NextResponse \<times> call list \<Rightarrow> NextResponse \<times> call list \<Rightarrow>
   NextResponse \<times> call list" where
  "pass_rate_limit limiter caught continue =
     (case limiter of
        None \<Rightarrow> continue
      | Some Throws \<Rightarrow> caught
      | Some (Returns success) \<Rightarrow>
          if \<not> success
          then (\<lparr>json_error = Some ''Too many requests. Please try again later.'',
                 http_status = 429\<rparr>, [])
          else continue)"

definition forgot_password_POST ::
  "zod_lib \<Rightarrow> request_env \<Rightarrow> AuthError option outcome \<Rightarrow> NextResponse \<times> call list" where
  "forgot_password_POST zod request resetPasswordForEmail =
     (let unexpected = \<lparr>json_error = Some ''An unexpected error occurred'', http_status = 500\<rparr>;
          caught = (unexpected, [ConsoleLog ''Error in forgot password:''])
      in pass_rate_limit (authRateLimit request) caught
        (case request_json request of
           Throws \<Rightarrow> caught
         | Returns JsonNull \<Rightarrow> caught
         | Returns body \<Rightarrow>
             (let email_value = (case body of JsonObject e p \<Rightarrow> e | _ \<Rightarrow> Undefined);
                  validation = validateEmail zod email_value
              in if \<not> isValid validation
                 then (\<lparr>json_error = Some (or_default (error validation) ''Invalid email''),
                        http_status = 400\<rparr>, [])
                 else
                   (case createClient request of
                      Throws \<Rightarrow> caught
                    | Returns _ \<Rightarrow>
                        (case resetPasswordForEmail of
                           Throws \<Rightarrow>
                             (unexpected,
                              [ResetPasswordForEmail email_value,
                               ConsoleLog ''Error in forgot password:''])
                         | Returns (Some e) \<Rightarrow>
                             (\<lparr>json_error = None, http_status = 200\<rparr>,
                              [ResetPasswordForEmail email_value,
                               ConsoleLog ''Failed to send reset password email:''])
                         | Returns None \<Rightarrow>
                             (\<lparr>json_error = None, http_status = 200\<rparr>,
                              [ResetPasswordForEmail email_value]))))))"

record User =
  identities :: "string list option"

record SignUpData =
  user :: "User option"

record SignUpResponse =
  signUp_data :: "SignUpData option"
  authError :: "AuthError option"

text \<open>\<open>data?.user?.identities?.length\<close>\<close>

definition identities_length :: "SignUpData option \<Rightarrow> nat option" where
  "identities_length d =
     (case d of
        None \<Rightarrow> None
      | Some sd \<Rightarrow>
          (case user sd of
             None \<Rightarrow> None
           | Some u \<Rightarrow> (case identities u of None \<Rightarrow> None | Some ids \<Rightarrow> Some (length ids))))"

definition signup_POST ::
  "zod_lib \<Rightarrow> AuthConfig \<Rightarrow> request_env \<Rightarrow> SignUpResponse outcome \<Rightarrow> NextResponse \<times> call list" where
  "signup_POST zod AUTH_CONFIG request signUp =
     (let internal = \<lparr>json_error = Some ''Internal server error'', http_status = 500\<rparr>
      in pass_rate_limit
        (if api_rate_limit_enabled AUTH_CONFIG then authRateLimit request else None) (internal, [])
        (case request_json request of
           Throws \<Rightarrow> (internal, [])
         | Returns body \<Rightarrow>
             (let validation = validateFormData zod body
              in case (form_error validation, form_data validation) of
                   (None, Some credentials) \<Rightarrow>
                     (case createClient request of
                        Throws \<Rightarrow> (internal, [])
                      | Returns _ \<Rightarrow>
                          (case signUp of
                             Throws \<Rightarrow> (internal, [SignUp credentials])
                           | Returns response \<Rightarrow>
                               if identities_length (signUp_data response) = Some 0 then
                                 (\<lparr>json_error = Some
                                     ''This email is already registered. Please try logging in instead.'',
                                    http_status = 400\<rparr>, [SignUp credentials])
                               else
                                 (case authError response of
                                    Some e \<Rightarrow>
                                      (\<lparr>json_error = Some (message e), http_status = 400\<rparr>,
                                       [SignUp credentials])
                                  | None \<Rightarrow>
                                      (\<lparr>json_error = None, http_status = 200\<rparr>,
                                       [SignUp credentials]))))
                 | (err, _) \<Rightarrow>
                     (\<lparr>json_error = Some (or_default err ''Invalid input''), http_status = 400\<rparr>,
                      []))))"


section \<open>Reference definitions\<close>

text \<open>
  The scoring rule as the specification words it: independent weights for the four
  fields, the maximum over the sessions, 100 for an empty or absent history. A field is
  present when it is neither \<open>undefined\<close> nor \<open>null\<close>. The base name of an operating
  system is what stands before its first space; the octets of an address are its
  dot-separated fields.
\<close>

definition present :: "jsval \<Rightarrow> bool" where
  "present v = (v \<noteq> Undefined \<and> v \<noteq> Null)"

fun the_str :: "jsval \<Rightarrow> string" where
  "the_str (Str s) = s"
| "the_str Undefined = []"
| "the_str Null = []"

definition before_first :: "char \<Rightarrow> string \<Rightarrow> string" where
  "before_first sep s = takeWhile (\<lambda>c. c \<noteq> sep) s"

function fields :: "char \<Rightarrow> string \<Rightarrow> string list" where
  "fields sep s =
     (case dropWhile (\<lambda>c. c \<noteq> sep) s of
        [] \<Rightarrow> [takeWhile (\<lambda>c. c \<noteq> sep) s]
      | _ # rest \<Rightarrow> takeWhile (\<lambda>c. c \<noteq> sep) s # fields sep rest)"
  by pat_completeness auto
termination
proof (relation "measure (\<lambda>(sep, s). length s)")
  show "wf (measure (\<lambda>(sep, s). length s))" by simp
next
  fix sep :: char and s :: string and x rest
  assume "dropWhile (\<lambda>c. c \<noteq> sep) s = x # rest"
  then have "length rest < length (dropWhile (\<lambda>c. c \<noteq> sep) s)" by simp
  also have "\<dots> \<le> length s" by (rule length_dropWhile_le)
  finally show "((sep, rest), (sep, s)) \<in> measure (\<lambda>(sep, s). length s)" by simp
qed

declare fields.simps [simp del]

text \<open>
  The operating-system weight in two readings: with both strings present, as the
  specification has it, and with both present and non-empty.
\<close>

definition spec_os_match :: "jsval \<Rightarrow> jsval \<Rightarrow> bool" where
  "spec_os_match a b =
     (present a \<and> present b \<and>
      before_first CHR '' '' (the_str a) = before_first CHR '' '' (the_str b))"

definition spec_os_match_nonempty :: "jsval \<Rightarrow> jsval \<Rightarrow> bool" where
  "spec_os_match_nonempty a b =
     (present a \<and> present b \<and> the_str a \<noteq> [] \<and> the_str b \<noteq> [] \<and>
      before_first CHR '' '' (the_str a) = before_first CHR '' '' (the_str b))"

definition spec_ip_match :: "jsval \<Rightarrow> jsval \<Rightarrow> bool" where
  "spec_ip_match a b =
     (present a \<and> present b \<and> the_str a \<noteq> [] \<and> the_str b \<noteq> [] \<and>
      take 3 (fields CHR ''.'' (the_str a)) = take 3 (fields CHR ''.'' (the_str b)))"

definition spec_session_score ::
  "(jsval \<Rightarrow> jsval \<Rightarrow> bool) \<Rightarrow> TDeviceInfo \<Rightarrow> TDeviceInfo \<Rightarrow> int" where
  "spec_session_score os_match stored current =
     (if device_name stored = device_name current then 30 else 0) +
     (if browser stored = browser current then 20 else 0) +
     (if os_match (os stored) (os current) then 20 else 0) +
     (if spec_ip_match (ip_address stored) (ip_address current) then 15 else 0)"

definition spec_confidence ::
  "(jsval \<Rightarrow> jsval \<Rightarrow> bool) \<Rightarrow> TDeviceSession list option \<Rightarrow> TDeviceInfo \<Rightarrow> int" where
  "spec_confidence os_match history current =
     (case history of
        None \<Rightarrow> 100
      | Some sessions \<Rightarrow>
          if sessions = [] then 100
          else Max ((\<lambda>session. spec_session_score os_match (device session) current) ` set sessions))"

text \<open>A value that is missing or the empty string.\<close>

definition missing :: "jsval \<Rightarrow> bool" where
  "missing v = (v = Undefined \<or> v = Null \<or> v = Str [])"

text \<open>
  The verified factors the provider lists, by kind; whether the configuration lets the
  resolver consult the provider at all; and the methods the resolver collects.
\<close>

definition verified :: "Factor list option \<Rightarrow> Factor list" where
  "verified factors =
     (case factors of None \<Rightarrow> [] | Some fs \<Rightarrow> filter (\<lambda>factor. status factor = ''verified'') fs)"

definition verified_totp :: "SupabaseClient \<Rightarrow> Factor list" where
  "verified_totp supabase =
     (case data (mfa_listFactors supabase) of None \<Rightarrow> [] | Some d \<Rightarrow> verified (totp d))"

definition verified_phone :: "SupabaseClient \<Rightarrow> Factor list" where
  "verified_phone supabase =
     (case data (mfa_listFactors supabase) of None \<Rightarrow> [] | Some d \<Rightarrow> verified (phone d))"

definition provider_consulted :: "AuthConfig \<Rightarrow> bool" where
  "provider_consulted cfg =
     (enabled (twoFactorAuth cfg) \<and> (\<exists>m \<in> set (methods (twoFactorAuth cfg)). method_enabled m))"

definition collected :: "SupabaseClient \<Rightarrow> TwoFactorMethodEntry list" where
  "collected supabase =
     (case verified_totp supabase of
        [] \<Rightarrow> []
      | f # _ \<Rightarrow> [\<lparr>type = ''authenticator'', factorId = id_f f\<rparr>]) @
     (case verified_phone supabase of
        [] \<Rightarrow> []
      | f # _ \<Rightarrow> [\<lparr>type = ''sms'', factorId = id_f f\<rparr>])"

text \<open>The phone shape as the specification words it: a plus sign, then 2 to 15 digits.\<close>

definition is_digit :: "char \<Rightarrow> bool" where
  "is_digit c = (CHR ''0'' \<le> c \<and> c \<le> CHR ''9'')"

definition spec_e164 :: "string \<Rightarrow> bool" where
  "spec_e164 s =
     (case s of
        [] \<Rightarrow> False
      | c # ds \<Rightarrow> c = CHR ''+'' \<and> 2 \<le> length ds \<and> length ds \<le> 15 \<and> list_all is_digit ds)"


section \<open>Example inputs\<close>

definition example_stored :: TDeviceSession where
  "example_stored =
     \<lparr>session_id = ''s1'',
      device = \<lparr>device_name = Str ''Laptop'', browser = Str ''Firefox'',
                os = Str ''Windows 10'', ip_address = Str ''192.168.1.7''\<rparr>\<rparr>"

definition example_current :: TDeviceInfo where
  "example_current =
     \<lparr>device_name = Str ''Laptop'', browser = Str ''Chrome'',
      os = Str ''Windows 11'', ip_address = Str ''192.168.1.20''\<rparr>"

definition empty_os_stored :: TDeviceSession where
  "empty_os_stored =
     \<lparr>session_id = ''s1'',
      device = \<lparr>device_name = Str ''Laptop'', browser = Str ''Firefox'',
                os = Str [], ip_address = Null\<rparr>\<rparr>"

definition empty_os_current :: TDeviceInfo where
  "empty_os_current =
     \<lparr>device_name = Str ''Phone'', browser = Str ''Chrome'', os = Str [], ip_address = Null\<rparr>"

definition nameless_stored :: TDeviceSession where
  "nameless_stored =
     \<lparr>session_id = ''s2'',
      device = \<lparr>device_name = Undefined, browser = Str [], os = Null, ip_address = Undefined\<rparr>\<rparr>"

definition nameless_current :: TDeviceInfo where
  "nameless_current =
     \<lparr>device_name = Undefined, browser = Str [],
      os = Str ''Linux'', ip_address = Str ''10.0.0.1''\<rparr>"

definition null_stored :: TDeviceSession where
  "null_stored =
     \<lparr>session_id = ''s3'',
      device = \<lparr>device_name = Null, browser = Null, os = Undefined, ip_address = Undefined\<rparr>\<rparr>"

definition undefined_current :: TDeviceInfo where
  "undefined_current =
     \<lparr>device_name = Undefined, browser = Undefined,
      os = Str ''Linux'', ip_address = Str ''10.0.0.1''\<rparr>"

definition config_on :: AuthConfig where
  "config_on =
     \<lparr>twoFactorAuth = \<lparr>enabled = True,
        methods = [\<lparr>method_type = ''authenticator'', method_enabled = True\<rparr>,
                   \<lparr>method_type = ''sms'', method_enabled = False\<rparr>]\<rparr>,
      api_rate_limit_enabled = True\<rparr>"

definition config_off :: AuthConfig where
  "config_off =
     \<lparr>twoFactorAuth = \<lparr>enabled = False,
        methods = [\<lparr>method_type = ''authenticator'', method_enabled = True\<rparr>]\<rparr>,
      api_rate_limit_enabled = False\<rparr>"

definition totp_1 :: Factor where
  "totp_1 = \<lparr>id_f = ''totp-1'', status = ''verified''\<rparr>"

definition phone_0 :: Factor where
  "phone_0 = \<lparr>id_f = ''phone-0'', status = ''unverified''\<rparr>"

definition phone_1 :: Factor where
  "phone_1 = \<lparr>id_f = ''phone-1'', status = ''verified''\<rparr>"

definition client_both :: SupabaseClient where
  "client_both =
     \<lparr>mfa_listFactors =
        \<lparr>data = Some \<lparr>totp = Some [totp_1], phone = Some [phone_0, phone_1]\<rparr>,
         factorsError = None\<rparr>\<rparr>"

definition client_unverified :: SupabaseClient where
  "client_unverified =
     \<lparr>mfa_listFactors =
        \<lparr>data = Some \<lparr>totp = Some [], phone = Some [phone_0]\<rparr>, factorsError = None\<rparr>\<rparr>"

definition client_error :: SupabaseClient where
  "client_error =
     \<lparr>mfa_listFactors = \<lparr>data = None, factorsError = Some \<lparr>message = ''fetch failed''\<rparr>\<rparr>\<rparr>"

definition zod_example :: zod_lib where
  "zod_example =
     \<lparr>isEmail = (\<lambda>s. CHR ''@'' \<in> set s), invalidTypeMessage = (\<lambda>v. ''Required''),
      invalidObjectMessage = ''Required''\<rparr>"

definition request_example :: request_env where
  "request_example =
     \<lparr>authRateLimit = Some (Returns True),
      request_json = Returns (JsonObject (Str ''ann@example.org'') (Str ''correct horse'')),
      createClient = Returns ()\<rparr>"

definition credentials_example :: AuthSchema where
  "credentials_example = \<lparr>email = ''ann@example.org'', password = ''correct horse''\<rparr>"

definition signUp_registered :: SignUpResponse where
  "signUp_registered =
     \<lparr>signUp_data = Some \<lparr>user = Some \<lparr>identities = Some []\<rparr>\<rparr>, authError = None\<rparr>"

definition signUp_fresh :: SignUpResponse where
  "signUp_fresh =
     \<lparr>signUp_data = Some \<lparr>user = Some \<lparr>identities = Some [''identity-1'']\<rparr>\<rparr>,
      authError = None\<rparr>"

definition signUp_rejected :: SignUpResponse where
  "signUp_rejected =
     \<lparr>signUp_data = None, authError = Some \<lparr>message = ''Signups not allowed''\<rparr>\<rparr>"

lemmas device_examples = example_stored_def example_current_def empty_os_stored_def
  empty_os_current_def nameless_stored_def nameless_current_def null_stored_def
  undefined_current_def

lemmas factor_examples = config_on_def config_off_def totp_1_def phone_0_def phone_1_def
  client_both_def client_unverified_def client_error_def

lemmas handler_examples = zod_example_def request_example_def credentials_example_def
  signUp_registered_def signUp_fresh_def signUp_rejected_def config_on_def config_off_def

lemmas confidence_eval = calculateDeviceConfidence_def session_score_def split_def slice0_def

lemmas requirement_eval = provider_consulted_def verified_totp_def verified_phone_def verified_def
  checkTwoFactorRequirements_def getMostTrustedTwoFactorMethod_def push_first_verified_def

lemmas handler_eval = signup_POST_def forgot_password_POST_def pass_rate_limit_def
  validateFormData_def validateEmail_def authSchema_issues_def safeParse_value_def safeParse_def
  emailChecks_def passwordChecks_def or_default_def identities_length_def


section \<open>String primitives against their reference\<close>

lemma split_from_nonempty: "split_from sep cur s \<noteq> []"
  by (induction s arbitrary: cur) auto

lemma split_from_no_sep: "sep \<notin> set s \<Longrightarrow> split_from sep cur s = [cur @ s]"
  by (induction s arbitrary: cur) auto

lemma split_from_append_sep:
  "sep \<notin> set a \<Longrightarrow> split_from sep cur (a @ sep # rest) = (cur @ a) # split_from sep [] rest"
  by (induction a arbitrary: cur) auto

lemma takeWhile_sep_free: "sep \<notin> set (takeWhile (\<lambda>c. c \<noteq> sep) s)"
  using set_takeWhileD by fastforce

lemma takeWhile_all_sep_free: "sep \<notin> set s \<Longrightarrow> takeWhile (\<lambda>c. c \<noteq> sep) s = s"
  by (induction s) auto

lemma dropWhile_Nil_sep_free: "dropWhile (\<lambda>c. c \<noteq> sep) s = [] \<Longrightarrow> sep \<notin> set s"
  by (auto simp: dropWhile_eq_Nil_conv)

lemma dropWhile_Cons_decomp:
  assumes "dropWhile (\<lambda>c. c \<noteq> sep) s = x # rest"
  shows "s = takeWhile (\<lambda>c. c \<noteq> sep) s @ sep # rest"
proof -
  have "x = sep" using assms hd_dropWhile [of "\<lambda>c. c \<noteq> sep" s] by auto
  with assms takeWhile_dropWhile_id [of "\<lambda>c. c \<noteq> sep" s] show ?thesis by simp
qed

lemma split_no_sep:
  assumes "dropWhile (\<lambda>c. c \<noteq> sep) s = []"
  shows "split sep s = [takeWhile (\<lambda>c. c \<noteq> sep) s]"
proof -
  have free: "sep \<notin> set s" using assms by (rule dropWhile_Nil_sep_free)
  have "split_from sep [] s = [[] @ s]" using free by (rule split_from_no_sep)
  moreover have "takeWhile (\<lambda>c. c \<noteq> sep) s = s" using free by (rule takeWhile_all_sep_free)
  ultimately show ?thesis unfolding split_def by (simp only: append_Nil)
qed

lemma split_at_sep:
  assumes "dropWhile (\<lambda>c. c \<noteq> sep) s = x # rest"
  shows "split sep s = takeWhile (\<lambda>c. c \<noteq> sep) s # split sep rest"
proof -
  let ?a = "takeWhile (\<lambda>c. c \<noteq> sep) s"
  have "sep \<notin> set ?a" by (rule takeWhile_sep_free)
  then have "split_from sep [] (?a @ sep # rest) = ([] @ ?a) # split_from sep [] rest"
    by (rule split_from_append_sep)
  moreover have "s = ?a @ sep # rest" using assms by (rule dropWhile_Cons_decomp)
  ultimately show ?thesis unfolding split_def by simp
qed

lemma fields_no_sep:
  "dropWhile (\<lambda>c. c \<noteq> sep) s = [] \<Longrightarrow> fields sep s = [takeWhile (\<lambda>c. c \<noteq> sep) s]"
  by (subst fields.simps) (simp only: list.case)

lemma fields_at_sep:
  "dropWhile (\<lambda>c. c \<noteq> sep) s = x # rest \<Longrightarrow>
   fields sep s = takeWhile (\<lambda>c. c \<noteq> sep) s # fields sep rest"
  by (subst fields.simps) simp

lemma split_fields: "split sep s = fields sep s"
proof (induction sep s rule: fields.induct)
  case (1 sep s)
  show ?case
  proof (cases "dropWhile (\<lambda>c. c \<noteq> sep) s")
    case Nil
    then show ?thesis by (simp only: split_no_sep fields_no_sep)
  next
    case (Cons x rest)
    then have "split sep rest = fields sep rest" by (rule 1)
    with Cons show ?thesis by (simp only: split_at_sep [OF Cons] fields_at_sep [OF Cons])
  qed
qed

lemma split_hd: "split sep s = before_first sep s # tl (split sep s)"
proof (cases "dropWhile (\<lambda>c. c \<noteq> sep) s")
  case Nil
  then show ?thesis by (simp add: split_no_sep before_first_def)
next
  case (Cons x rest)
  then show ?thesis by (simp add: split_at_sep [OF Cons] before_first_def)
qed

lemma at_index_split_0: "at_index (split sep s) 0 = Str (before_first sep s)"
  by (subst split_hd) simp

lemma split_nonempty: "split sep s \<noteq> []"
  by (subst split_hd) simp

lemma split_from_sep_free: "sep \<notin> set cur \<Longrightarrow> \<forall>x \<in> set (split_from sep cur s). sep \<notin> set x"
proof (induction s arbitrary: cur)
  case Nil
  then show ?case by simp
next
  case (Cons c cs)
  show ?case
  proof (cases "c = sep")
    case True
    have "\<forall>x \<in> set (split_from sep [] cs). sep \<notin> set x" by (rule Cons.IH) simp
    with True Cons.prems show ?thesis by simp
  next
    case False
    with Cons.prems have "sep \<notin> set (cur @ [c])" by simp
    then have "\<forall>x \<in> set (split_from sep (cur @ [c]) cs). sep \<notin> set x" by (rule Cons.IH)
    with False show ?thesis by simp
  qed
qed

lemma split_sep_free: "x \<in> set (split sep s) \<Longrightarrow> sep \<notin> set x"
  using split_from_sep_free [of sep "[]" s] by (simp add: split_def)

lemma split_from_join:
  "xs \<noteq> [] \<Longrightarrow> \<forall>x \<in> set xs. sep \<notin> set x \<Longrightarrow> split_from sep cur (join [sep] xs) = (cur @ hd xs) # tl xs"
proof (induction xs arbitrary: cur)
  case Nil then show ?case by simp
next
  case (Cons x xs)
  show ?case
  proof (cases xs)
    case Nil
    with Cons.prems show ?thesis by (simp add: split_from_no_sep)
  next
    case (Cons y ys)
    have x: "sep \<notin> set x" using Cons.prems by simp
    have "split_from sep [] (join [sep] xs) = ([] @ hd xs) # tl xs"
      using Cons.prems Cons by (intro Cons.IH) auto
    with Cons show ?thesis
      using split_from_append_sep [OF x, of cur "join [sep] (y # ys)"] by simp
  qed
qed

lemma join_inj:
  assumes "xs \<noteq> []" "ys \<noteq> []" "\<forall>x \<in> set xs. sep \<notin> set x" "\<forall>y \<in> set ys. sep \<notin> set y"
  shows "join [sep] xs = join [sep] ys \<longleftrightarrow> xs = ys"
proof
  assume "join [sep] xs = join [sep] ys"
  then have "split_from sep [] (join [sep] xs) = split_from sep [] (join [sep] ys)" by simp
  then show "xs = ys" using assms by (simp add: split_from_join)
qed simp

lemma split_ip_eq:
  "join [sep] (slice0 n (split sep a)) = join [sep] (slice0 n (split sep b)) \<longleftrightarrow>
   take n (fields sep a) = take n (fields sep b)" if "0 < n"
proof -
  have ne: "take n (split sep s) \<noteq> []" for s using that split_nonempty [of sep s] by (cases "split sep s"; cases n) auto
  have fr: "\<forall>x \<in> set (take n (split sep s)). sep \<notin> set x" for s
    using split_sep_free by (metis in_set_takeD)
  show ?thesis unfolding slice0_def
    using join_inj [OF ne ne fr fr, of a b] by (simp add: split_fields)
qed


section \<open>Device confidence\<close>

lemma truthy_present: "truthy v \<longleftrightarrow> present v \<and> the_str v \<noteq> []"
  by (cases v) (simp_all add: present_def)

lemma os_part:
  "(case (a, b) of
      (Str so, Str co) \<Rightarrow>
        if truthy (Str so) \<and> truthy (Str co) then
          (if at_index (split CHR '' '' so) 0 = at_index (split CHR '' '' co) 0
           then score + 20 else score)
        else score
    | _ \<Rightarrow> score) = score + (if spec_os_match_nonempty a b then 20 else (0::int))"
  by (cases a; cases b) (simp_all add: spec_os_match_nonempty_def present_def at_index_split_0 Let_def)

lemma ip_part:
  "(case (a, b) of
      (Str si, Str ci) \<Rightarrow>
        if truthy (Str si) \<and> truthy (Str ci) then
          (if join ''.'' (slice0 3 (split CHR ''.'' si)) = join ''.'' (slice0 3 (split CHR ''.'' ci))
           then score + 15 else score)
        else score
    | _ \<Rightarrow> score) = score + (if spec_ip_match a b then 15 else (0::int))"
  by (cases a; cases b) (simp_all add: spec_ip_match_def present_def split_ip_eq Let_def)

lemma session_score_spec:
  "session_score session current = spec_session_score spec_os_match_nonempty (device session) current"
  unfolding session_score_def spec_session_score_def Let_def os_part ip_part by simp

lemma fold_max_Max: "fold max (map f xs) (f x) = Max (f ` set (x # xs))" for f :: "'a \<Rightarrow> int"
  using Max.set_eq_fold [of "f x" "map f xs"] by simp

lemma session_score_bounds: "0 \<le> session_score session current \<and> session_score session current \<le> 85"
  unfolding session_score_spec spec_session_score_def by simp

lemma fold_max_bounds:
  fixes x :: int
  assumes "lo \<le> x \<and> x \<le> hi" "\<forall>y \<in> set ys. lo \<le> y \<and> y \<le> hi"
  shows "lo \<le> fold max ys x \<and> fold max ys x \<le> hi"
  using assms by (induction ys arbitrary: x) auto

lemma confidence_nonempty_bounds:
  "0 \<le> calculateDeviceConfidence (Some (s # ss)) current \<and>
   calculateDeviceConfidence (Some (s # ss)) current \<le> 85"
proof -
  have "0 \<le> fold max (map (\<lambda>session. session_score session current) ss) (session_score s current) \<and>
        fold max (map (\<lambda>session. session_score session current) ss) (session_score s current) \<le> 85"
    by (rule fold_max_bounds) (simp_all add: session_score_bounds)
  then show ?thesis by (simp add: calculateDeviceConfidence_def)
qed

text \<open>
  C3: \<open>calculateDeviceConfidence\<close> equals the reference definition once the
  operating-system weight asks for both strings to be present and non-empty: 100 for an
  empty or absent history, otherwise the maximum over the sessions of the sum of 30 for
  equal device names, 20 for equal browsers, 20 for equal base names of two non-empty
  operating-system strings and 15 for equal first three octets of two non-empty addresses,
  all comparisons exact.
\<close>

theorem confidence_refines_spec_nonempty:
  "calculateDeviceConfidence history current = spec_confidence spec_os_match_nonempty history current"
proof (cases history)
  case None
  then show ?thesis by (simp add: calculateDeviceConfidence_def spec_confidence_def)
next
  case (Some sessions)
  show ?thesis
  proof (cases sessions)
    case Nil
    with Some show ?thesis by (simp add: calculateDeviceConfidence_def spec_confidence_def)
  next
    case (Cons s ss)
    have "fold max (map (\<lambda>session. session_score session current) ss) (session_score s current)
          = Max ((\<lambda>session. session_score session current) ` set (s # ss))"
      by (rule fold_max_Max)
    with Some Cons show ?thesis
      by (simp add: calculateDeviceConfidence_def spec_confidence_def session_score_spec)
  qed
qed

text \<open>The refinement at two histories; the second has an empty operating-system string on both sides.\<close>

theorem confidence_refines_spec_nonempty_witness:
  "spec_confidence spec_os_match_nonempty (Some [example_stored]) example_current = 65 \<and>
   spec_confidence spec_os_match_nonempty (Some [empty_os_stored]) empty_os_current = 0"
  using confidence_refines_spec_nonempty [of "Some [example_stored]" example_current, symmetric]
    confidence_refines_spec_nonempty [of "Some [empty_os_stored]" empty_os_current, symmetric]
  by (simp add: confidence_eval device_examples)

text \<open>
  C3 as worded asks only for both operating-system strings to be present. Two empty
  strings are present and have equal base names, so the reference awards 20 where the
  code, whose guard is truthiness, awards nothing.
\<close>

theorem confidence_differs_from_spec_on_empty_os:
  "calculateDeviceConfidence (Some [empty_os_stored]) empty_os_current = 0 \<and>
   spec_confidence spec_os_match (Some [empty_os_stored]) empty_os_current = 20"
  by (simp add: confidence_eval device_examples spec_confidence_def spec_session_score_def
      spec_os_match_def spec_ip_match_def present_def before_first_def)

text \<open>
  C4: with a non-empty history the confidence lies between 0 and 85; in every
  case it lies between 0 and 100, and it is 100 exactly when the history is empty or absent.
\<close>

theorem confidence_bounds:
  "(history \<noteq> None \<and> history \<noteq> Some [] \<longrightarrow>
      0 \<le> calculateDeviceConfidence history current \<and>
      calculateDeviceConfidence history current \<le> 85) \<and>
   0 \<le> calculateDeviceConfidence history current \<and>
   calculateDeviceConfidence history current \<le> 100 \<and>
   (calculateDeviceConfidence history current = 100 \<longleftrightarrow> history = None \<or> history = Some [])"
proof (cases history)
  case None
  then show ?thesis by (simp add: calculateDeviceConfidence_def)
next
  case (Some sessions)
  show ?thesis
  proof (cases sessions)
    case Nil
    with Some show ?thesis by (simp add: calculateDeviceConfidence_def)
  next
    case (Cons s ss)
    with Some confidence_nonempty_bounds [of s ss current] show ?thesis by simp
  qed
qed

text \<open>The bounds at a one-session history scoring 65 and at the empty history.\<close>

theorem confidence_bounds_witness:
  "Some [example_stored] \<noteq> None \<and> Some [example_stored] \<noteq> Some [] \<and>
   calculateDeviceConfidence (Some [example_stored]) example_current = 65 \<and>
   calculateDeviceConfidence (Some [example_stored]) example_current \<le> 85 \<and>
   calculateDeviceConfidence (Some []) example_current = 100"
  using confidence_bounds [of "Some [example_stored]" example_current]
    confidence_bounds [of "Some []" example_current]
  by (simp add: confidence_eval device_examples)

text \<open>
  C10: the device-name and browser comparisons have no presence guard, and they are
  strict equalities. When the current device name is missing or empty and the stored one
  is the same value, the session scores 30 more than it would with two different names;
  when both are absent but differ, one being \<open>null\<close> and the other
  \<open>undefined\<close>, it scores what it would with two different names. Likewise with 20 for
  the browser.
\<close>

theorem name_and_browser_strict_equality:
  "(missing (device_name current) \<and> device_name (device session) = device_name current \<longrightarrow>
      session_score session current =
        30 + session_score (session\<lparr>device := (device session)\<lparr>device_name := Str ''stored''\<rparr>\<rparr>)
               (current\<lparr>device_name := Str ''current''\<rparr>)) \<and>
   (\<not> present (device_name (device session)) \<and> \<not> present (device_name current) \<and>
    device_name (device session) \<noteq> device_name current \<longrightarrow>
      session_score session current =
        session_score (session\<lparr>device := (device session)\<lparr>device_name := Str ''stored''\<rparr>\<rparr>)
          (current\<lparr>device_name := Str ''current''\<rparr>)) \<and>
   (missing (browser current) \<and> browser (device session) = browser current \<longrightarrow>
      session_score session current =
        20 + session_score (session\<lparr>device := (device session)\<lparr>browser := Str ''stored''\<rparr>\<rparr>)
               (current\<lparr>browser := Str ''current''\<rparr>)) \<and>
   (\<not> present (browser (device session)) \<and> \<not> present (browser current) \<and>
    browser (device session) \<noteq> browser current \<longrightarrow>
      session_score session current =
        session_score (session\<lparr>device := (device session)\<lparr>browser := Str ''stored''\<rparr>\<rparr>)
          (current\<lparr>browser := Str ''current''\<rparr>))"
  unfolding session_score_spec spec_session_score_def by simp

text \<open>
  A session with no device name and an empty browser on both sides scores 50; a session
  whose name and browser are \<open>null\<close> scores nothing against a device whose name and
  browser are \<open>undefined\<close>.
\<close>

theorem name_and_browser_strict_equality_witness:
  "missing (device_name nameless_current) \<and>
   device_name (device nameless_stored) = device_name nameless_current \<and>
   missing (browser nameless_current) \<and>
   browser (device nameless_stored) = browser nameless_current \<and>
   session_score nameless_stored nameless_current = 50 \<and>
   calculateDeviceConfidence (Some [nameless_stored]) nameless_current = 50 \<and>
   \<not> present (device_name (device null_stored)) \<and>
   \<not> present (device_name undefined_current) \<and>
   device_name (device null_stored) \<noteq> device_name undefined_current \<and>
   \<not> present (browser (device null_stored)) \<and>
   \<not> present (browser undefined_current) \<and>
   browser (device null_stored) \<noteq> browser undefined_current \<and>
   session_score null_stored undefined_current = 0"
  using name_and_browser_strict_equality [of nameless_current nameless_stored]
    name_and_browser_strict_equality [of undefined_current null_stored]
  by (simp add: confidence_eval device_examples missing_def present_def)

text \<open>
  C10 as worded has the weight awarded whenever both device names are absent. A stored
  \<open>null\<close> and a current \<open>undefined\<close> are both absent and not strictly equal: the
  session earns neither the 30 for the name nor the 20 for the browser.
\<close>

theorem absent_names_not_equal:
  "\<not> present (device_name (device null_stored)) \<and>
   \<not> present (device_name undefined_current) \<and>
   \<not> present (browser (device null_stored)) \<and>
   \<not> present (browser undefined_current) \<and>
   session_score null_stored undefined_current = 0 \<and>
   calculateDeviceConfidence (Some [null_stored]) undefined_current = 0"
  by (simp add: confidence_eval device_examples present_def)


section \<open>Two-factor requirements\<close>

lemma push_first_verified_eq:
  "push_first_verified kind factors acc =
     acc @ (case verified factors of [] \<Rightarrow> [] | f # _ \<Rightarrow> [\<lparr>type = kind, factorId = id_f f\<rparr>])"
  by (cases factors) (simp_all add: push_first_verified_def verified_def Let_def split: list.split)

lemma filter_enabled_empty:
  "(length (filter method_enabled ms) = 0) = (\<not> (\<exists>m \<in> set ms. method_enabled m))"
  by (simp add: filter_empty_conv)

lemma check_gate_closed:
  "\<not> provider_consulted cfg \<Longrightarrow> checkTwoFactorRequirements cfg supabase = (Inr NotRequired, [])"
  unfolding checkTwoFactorRequirements_def provider_consulted_def Let_def filter_enabled_empty
  by auto

lemma check_provider_error:
  "provider_consulted cfg \<Longrightarrow> factorsError (mfa_listFactors supabase) = Some e \<Longrightarrow>
   checkTwoFactorRequirements cfg supabase =
     (Inl (Error ''Failed to check 2FA status''),
      [ListFactorsCall, ConsoleError ''Error getting MFA factors:''])"
  unfolding checkTwoFactorRequirements_def provider_consulted_def Let_def filter_enabled_empty
  by auto

lemma available_collected:
  "(case data (mfa_listFactors supabase) of
      None \<Rightarrow>
        (case data (mfa_listFactors supabase) of
           None \<Rightarrow> []
         | Some d \<Rightarrow> push_first_verified ''authenticator'' (totp d) [])
    | Some d \<Rightarrow>
        push_first_verified ''sms'' (phone d)
          (case data (mfa_listFactors supabase) of
             None \<Rightarrow> []
           | Some d \<Rightarrow> push_first_verified ''authenticator'' (totp d) [])) = collected supabase"
  by (cases "data (mfa_listFactors supabase)")
     (simp_all add: push_first_verified_eq collected_def verified_totp_def verified_phone_def)

lemma check_provider_ok:
  assumes "provider_consulted cfg" "factorsError (mfa_listFactors supabase) = None"
  shows "checkTwoFactorRequirements cfg supabase =
     (if collected supabase = [] then (Inr NotRequired, [ListFactorsCall])
      else case getMostTrustedTwoFactorMethod (Some (collected supabase)) of
             None \<Rightarrow> (Inl (Error ''No default 2FA method found''), [ListFactorsCall])
           | Some defaultMethod \<Rightarrow>
               (Inr (Required (factorId defaultMethod) (collected supabase)), [ListFactorsCall]))"
proof -
  have gate: "enabled (twoFactorAuth cfg)"
    "length (filter method_enabled (methods (twoFactorAuth cfg))) \<noteq> 0"
    using assms(1) by (auto simp: provider_consulted_def filter_empty_conv)
  show ?thesis
    unfolding checkTwoFactorRequirements_def Let_def available_collected
    using gate assms(2) by simp
qed

lemma find_SomeD: "find P xs = Some x \<Longrightarrow> P x \<and> x \<in> set xs"
  by (induction xs) (auto split: if_splits)

lemma most_trusted_authenticator:
  assumes "m \<in> set ms" "type m = ''authenticator''"
  shows "\<exists>a. getMostTrustedTwoFactorMethod (Some ms) = Some a \<and> a \<in> set ms \<and> type a = ''authenticator''"
proof -
  from assms obtain a where a: "find (\<lambda>m. type m = ''authenticator'') ms = Some a"
    by (cases "find (\<lambda>m. type m = ''authenticator'') ms") (auto simp: find_None_iff)
  from assms(1) have "length ms \<noteq> 0" by auto
  with a have "getMostTrustedTwoFactorMethod (Some ms) = Some a"
    by (simp add: getMostTrustedTwoFactorMethod_def)
  with find_SomeD [OF a] show ?thesis by simp
qed

lemma most_trusted_sms:
  assumes "\<forall>m \<in> set ms. type m \<noteq> ''authenticator''" "m \<in> set ms" "type m = ''sms''"
  shows "\<exists>s. getMostTrustedTwoFactorMethod (Some ms) = Some s \<and> s \<in> set ms \<and> type s = ''sms''"
proof -
  from assms(1) have none: "find (\<lambda>m. type m = ''authenticator'') ms = None"
    by (simp add: find_None_iff)
  from assms(2,3) obtain s where s: "find (\<lambda>m. type m = ''sms'') ms = Some s"
    by (cases "find (\<lambda>m. type m = ''sms'') ms") (auto simp: find_None_iff)
  from assms(2) have "length ms \<noteq> 0" by auto
  with none s have "getMostTrustedTwoFactorMethod (Some ms) = Some s"
    by (simp add: getMostTrustedTwoFactorMethod_def)
  with find_SomeD [OF s] show ?thesis by simp
qed

lemma most_trusted_in_set:
  "getMostTrustedTwoFactorMethod (Some ms) = Some d \<Longrightarrow> d \<in> set ms"
  unfolding getMostTrustedTwoFactorMethod_def
  by (auto dest: find_SomeD split: if_splits option.splits)

lemma collected_types: "m \<in> set (collected supabase) \<Longrightarrow> type m = ''authenticator'' \<or> type m = ''sms''"
  by (auto simp: collected_def split: list.splits)

lemma most_trusted_total:
  assumes "ms \<noteq> []" "\<forall>m \<in> set ms. type m = ''authenticator'' \<or> type m = ''sms''"
  shows "getMostTrustedTwoFactorMethod (Some ms) \<noteq> None"
proof -
  from assms(1) obtain m where m: "m \<in> set ms" by (cases ms) auto
  show ?thesis
  proof (cases "\<exists>a \<in> set ms. type a = ''authenticator''")
    case True
    then show ?thesis using most_trusted_authenticator by fastforce
  next
    case False
    with assms(2) m have "type m = ''sms''" by blast
    with False m show ?thesis using most_trusted_sms [of ms m] by fastforce
  qed
qed

lemma collected_origin:
  assumes "m \<in> set (collected supabase)"
  shows "(type m = ''authenticator'' \<and> (\<exists>f \<in> set (verified_totp supabase). id_f f = factorId m)) \<or>
         (type m = ''sms'' \<and> (\<exists>f \<in> set (verified_phone supabase). id_f f = factorId m))"
  using assms
  by (cases "verified_totp supabase"; cases "verified_phone supabase") (auto simp: collected_def)

text \<open>
  C2: when the provider is consulted and lists exactly one verified authenticator
  factor and exactly one verified sms factor, the resolver requires a second factor with
  the authenticator factor as the default; in general the default is an authenticator
  method whenever the list has one, and an sms method when it has none but has an sms
  method.
\<close>

theorem default_prefers_authenticator:
  "(provider_consulted cfg \<and> factorsError (mfa_listFactors supabase) = None \<and>
    verified_totp supabase = [a] \<and> verified_phone supabase = [p] \<longrightarrow>
      fst (checkTwoFactorRequirements cfg supabase) =
        Inr (Required (id_f a) [\<lparr>type = ''authenticator'', factorId = id_f a\<rparr>,
                                \<lparr>type = ''sms'', factorId = id_f p\<rparr>])) \<and>
   (m \<in> set ms \<and> type m = ''authenticator'' \<longrightarrow>
      (\<exists>d. getMostTrustedTwoFactorMethod (Some ms) = Some d \<and> d \<in> set ms \<and>
           type d = ''authenticator'')) \<and>
   ((\<forall>x \<in> set ms. type x \<noteq> ''authenticator'') \<and> m \<in> set ms \<and> type m = ''sms'' \<longrightarrow>
      (\<exists>d. getMostTrustedTwoFactorMethod (Some ms) = Some d \<and> d \<in> set ms \<and> type d = ''sms''))"
proof (intro conjI impI)
  assume h: "provider_consulted cfg \<and> factorsError (mfa_listFactors supabase) = None \<and>
    verified_totp supabase = [a] \<and> verified_phone supabase = [p]"
  then have c: "collected supabase = [\<lparr>type = ''authenticator'', factorId = id_f a\<rparr>,
                                \<lparr>type = ''sms'', factorId = id_f p\<rparr>]"
    by (simp add: collected_def)
  have "getMostTrustedTwoFactorMethod (Some (collected supabase)) = Some \<lparr>type = ''authenticator'', factorId = id_f a\<rparr>"
    unfolding c by (simp add: getMostTrustedTwoFactorMethod_def)
  with h c show "fst (checkTwoFactorRequirements cfg supabase) =
        Inr (Required (id_f a) [\<lparr>type = ''authenticator'', factorId = id_f a\<rparr>,
                                \<lparr>type = ''sms'', factorId = id_f p\<rparr>])"
    by (simp add: check_provider_ok)
next
  assume "m \<in> set ms \<and> type m = ''authenticator''"
  then show "\<exists>d. getMostTrustedTwoFactorMethod (Some ms) = Some d \<and> d \<in> set ms \<and> type d = ''authenticator''"
    using most_trusted_authenticator by blast
next
  assume "(\<forall>x \<in> set ms. type x \<noteq> ''authenticator'') \<and> m \<in> set ms \<and> type m = ''sms''"
  then show "\<exists>d. getMostTrustedTwoFactorMethod (Some ms) = Some d \<and> d \<in> set ms \<and> type d = ''sms''"
    using most_trusted_sms by blast
qed

text \<open>A user with one verified authenticator factor and one verified sms factor.\<close>

theorem default_prefers_authenticator_witness:
  "provider_consulted config_on \<and> factorsError (mfa_listFactors client_both) = None \<and>
   verified_totp client_both = [totp_1] \<and> verified_phone client_both = [phone_1] \<and>
   fst (checkTwoFactorRequirements config_on client_both) =
     Inr (Required ''totp-1'' [\<lparr>type = ''authenticator'', factorId = ''totp-1''\<rparr>,
                              \<lparr>type = ''sms'', factorId = ''phone-1''\<rparr>]) \<and>
   (\<exists>d. getMostTrustedTwoFactorMethod
          (Some [\<lparr>type = ''sms'', factorId = ''phone-1''\<rparr>,
                 \<lparr>type = ''authenticator'', factorId = ''totp-1''\<rparr>]) = Some d \<and>
        type d = ''authenticator'')"
  using default_prefers_authenticator [of config_on client_both totp_1 phone_1
      "\<lparr>type = ''authenticator'', factorId = ''totp-1''\<rparr>"
      "[\<lparr>type = ''sms'', factorId = ''phone-1''\<rparr>, \<lparr>type = ''authenticator'', factorId = ''totp-1''\<rparr>]"]
  by (auto simp: factor_examples provider_consulted_def verified_totp_def verified_phone_def verified_def)

text \<open>
  C5: the factor-listing call is made exactly when two-factor authentication is
  enabled with an enabled method, and when it answers with an error the resolver fails
  with \<open>Failed to check 2FA status\<close> instead of returning a requirement.
\<close>

theorem provider_error_is_fatal:
  assumes "factorsError (mfa_listFactors supabase) = Some e"
  shows "(ListFactorsCall \<in> set (snd (checkTwoFactorRequirements cfg supabase)) \<longleftrightarrow>
            provider_consulted cfg) \<and>
         (provider_consulted cfg \<longrightarrow>
            fst (checkTwoFactorRequirements cfg supabase) = Inl (Error ''Failed to check 2FA status''))"
proof (cases "provider_consulted cfg")
  case True
  with assms show ?thesis by (simp add: check_provider_error)
next
  case False
  then show ?thesis by (simp add: check_gate_closed)
qed

text \<open>The provider fails while two-factor authentication is enabled.\<close>

theorem provider_error_is_fatal_witness:
  "factorsError (mfa_listFactors client_error) = Some \<lparr>message = ''fetch failed''\<rparr> \<and>
   provider_consulted config_on \<and>
   ListFactorsCall \<in> set (snd (checkTwoFactorRequirements config_on client_error)) \<and>
   fst (checkTwoFactorRequirements config_on client_error) = Inl (Error ''Failed to check 2FA status'')"
  using provider_error_is_fatal [of client_error "\<lparr>message = ''fetch failed''\<rparr>" config_on]
  by (simp add: factor_examples provider_consulted_def)

text \<open>
  C6: the resolver returns "not required" without calling the provider when
  two-factor authentication is disabled or no method is enabled; it returns "not required"
  exactly when that holds or the provider answers without error and lists no verified
  factor; every other successful result is "required".
\<close>

theorem not_required_cases:
  "(\<not> provider_consulted cfg \<longrightarrow>
      checkTwoFactorRequirements cfg supabase = (Inr NotRequired, [])) \<and>
   (fst (checkTwoFactorRequirements cfg supabase) = Inr NotRequired \<longleftrightarrow>
      \<not> enabled (twoFactorAuth cfg) \<or>
      \<not> (\<exists>m \<in> set (methods (twoFactorAuth cfg)). method_enabled m) \<or>
      (factorsError (mfa_listFactors supabase) = None \<and>
       verified_totp supabase = [] \<and> verified_phone supabase = [])) \<and>
   (fst (checkTwoFactorRequirements cfg supabase) = Inr r \<and> r \<noteq> NotRequired \<longrightarrow>
      requiresTwoFactor r \<and> provider_consulted cfg \<and>
      (verified_totp supabase \<noteq> [] \<or> verified_phone supabase \<noteq> []))"
proof (cases "provider_consulted cfg")
  case False
  then have "checkTwoFactorRequirements cfg supabase = (Inr NotRequired, [])"
    by (rule check_gate_closed)
  with False show ?thesis by (auto simp: provider_consulted_def)
next
  case True
  then have gate: "enabled (twoFactorAuth cfg)" "\<exists>m \<in> set (methods (twoFactorAuth cfg)). method_enabled m"
    by (simp_all add: provider_consulted_def)
  show ?thesis
  proof (cases "factorsError (mfa_listFactors supabase)")
    case (Some e)
    with True gate show ?thesis by (simp add: check_provider_error)
  next
    case None
    have empty: "collected supabase = [] \<longleftrightarrow> verified_totp supabase = [] \<and> verified_phone supabase = []"
      by (auto simp: collected_def split: list.splits)
    show ?thesis
    proof (cases "collected supabase = []")
      case c: True
      with True None gate empty show ?thesis by (simp add: check_provider_ok)
    next
      case c: False
      have "getMostTrustedTwoFactorMethod (Some (collected supabase)) \<noteq> None"
        using c collected_types by (intro most_trusted_total) auto
      then obtain d where "getMostTrustedTwoFactorMethod (Some (collected supabase)) = Some d" by auto
      with True None gate empty c show ?thesis by (auto simp: check_provider_ok)
    qed
  qed
qed

text \<open>Disabled configuration, a user with unverified factors only, and a user with verified ones.\<close>

theorem not_required_cases_witness:
  "\<not> provider_consulted config_off \<and>
   checkTwoFactorRequirements config_off client_both = (Inr NotRequired, []) \<and>
   fst (checkTwoFactorRequirements config_on client_unverified) = Inr NotRequired \<and>
   verified_totp client_unverified = [] \<and> verified_phone client_unverified = [] \<and>
   fst (checkTwoFactorRequirements config_on client_both) \<noteq> Inr NotRequired"
  using not_required_cases [of config_off client_both NotRequired]
    not_required_cases [of config_on client_unverified NotRequired]
    not_required_cases [of config_on client_both NotRequired]
  by (simp add: factor_examples provider_consulted_def verified_totp_def verified_phone_def verified_def)

text \<open>
  C7: when the resolver returns "required", the default factor id is the factor
  id of one of the available methods, and every available method carries the id of a
  verified factor of its kind in the provider's listing.
\<close>

theorem required_methods_from_input:
  assumes "fst (checkTwoFactorRequirements cfg supabase) = Inr (Required fid ms)"
  shows "(\<exists>m \<in> set ms. factorId m = fid) \<and>
         (\<forall>m \<in> set ms.
            (type m = ''authenticator'' \<and> (\<exists>f \<in> set (verified_totp supabase). id_f f = factorId m)) \<or>
            (type m = ''sms'' \<and> (\<exists>f \<in> set (verified_phone supabase). id_f f = factorId m)))"
proof -
  have pc: "provider_consulted cfg"
    using assms check_gate_closed [of cfg supabase] by (cases "provider_consulted cfg") auto
  have ok: "factorsError (mfa_listFactors supabase) = None"
    using assms pc check_provider_error [of cfg supabase]
    by (cases "factorsError (mfa_listFactors supabase)") auto
  from assms obtain d where d: "getMostTrustedTwoFactorMethod (Some (collected supabase)) = Some d"
      and fid: "fid = factorId d" and ms: "ms = collected supabase"
    by (auto simp: check_provider_ok [OF pc ok] split: if_splits option.splits)
  from d have "d \<in> set ms" unfolding ms by (rule most_trusted_in_set)
  with fid have 1: "\<exists>m \<in> set ms. factorId m = fid" by blast
  have 2: "\<forall>m \<in> set ms.
            (type m = ''authenticator'' \<and> (\<exists>f \<in> set (verified_totp supabase). id_f f = factorId m)) \<or>
            (type m = ''sms'' \<and> (\<exists>f \<in> set (verified_phone supabase). id_f f = factorId m))"
    unfolding ms using collected_origin by blast
  from 1 2 show ?thesis by blast
qed

text \<open>The requirement computed for a user with both kinds of verified factor.\<close>

theorem required_methods_from_input_witness:
  "fst (checkTwoFactorRequirements config_on client_both) =
     Inr (Required ''totp-1'' [\<lparr>type = ''authenticator'', factorId = ''totp-1''\<rparr>,
                              \<lparr>type = ''sms'', factorId = ''phone-1''\<rparr>]) \<and>
   (\<exists>m \<in> set [\<lparr>type = ''authenticator'', factorId = ''totp-1''\<rparr>,
               \<lparr>type = ''sms'', factorId = ''phone-1''\<rparr>]. factorId m = ''totp-1'') \<and>
   (\<exists>f \<in> set (verified_phone client_both). id_f f = ''phone-1'')"
proof -
  have h: "fst (checkTwoFactorRequirements config_on client_both) =
     Inr (Required ''totp-1'' [\<lparr>type = ''authenticator'', factorId = ''totp-1''\<rparr>,
                              \<lparr>type = ''sms'', factorId = ''phone-1''\<rparr>])"
    by (simp add: factor_examples requirement_eval)
  from required_methods_from_input [OF h] h show ?thesis by simp
qed

text \<open>
  C9: on a non-empty list whose methods are all of type authenticator or sms the
  default selection returns a method, and the resolver never fails with
  \<open>No default 2FA method found\<close>.
\<close>

theorem default_method_always_found:
  "(ms \<noteq> [] \<and> (\<forall>m \<in> set ms. type m = ''authenticator'' \<or> type m = ''sms'') \<longrightarrow>
      getMostTrustedTwoFactorMethod (Some ms) \<noteq> None) \<and>
   fst (checkTwoFactorRequirements cfg supabase) \<noteq> Inl (Error ''No default 2FA method found'')"
proof (intro conjI impI)
  assume "ms \<noteq> [] \<and> (\<forall>m \<in> set ms. type m = ''authenticator'' \<or> type m = ''sms'')"
  then show "getMostTrustedTwoFactorMethod (Some ms) \<noteq> None"
    by (intro most_trusted_total) auto
next
  show "fst (checkTwoFactorRequirements cfg supabase) \<noteq> Inl (Error ''No default 2FA method found'')"
  proof (cases "provider_consulted cfg")
    case False
    then show ?thesis by (simp add: check_gate_closed)
  next
    case True
    show ?thesis
    proof (cases "factorsError (mfa_listFactors supabase)")
      case (Some e)
      with True show ?thesis by (simp add: check_provider_error)
    next
      case None
      show ?thesis
      proof (cases "collected supabase = []")
        case c: True
        with True None show ?thesis by (simp add: check_provider_ok)
      next
        case c: False
        have "getMostTrustedTwoFactorMethod (Some (collected supabase)) \<noteq> None"
          using c collected_types by (intro most_trusted_total) auto
        then obtain d where "getMostTrustedTwoFactorMethod (Some (collected supabase)) = Some d" by auto
        with True None c show ?thesis by (simp add: check_provider_ok)
      qed
    qed
  qed
qed

text \<open>A list with one sms method, and the resolver on a user with both kinds.\<close>

theorem default_method_always_found_witness:
  "[\<lparr>type = ''sms'', factorId = ''phone-1''\<rparr>] \<noteq> [] \<and>
   type \<lparr>type = ''sms'', factorId = ''phone-1''\<rparr> = ''sms'' \<and>
   getMostTrustedTwoFactorMethod (Some [\<lparr>type = ''sms'', factorId = ''phone-1''\<rparr>]) \<noteq> None \<and>
   fst (checkTwoFactorRequirements config_on client_both) \<noteq> Inl (Error ''No default 2FA method found'')"
  using default_method_always_found [of "[\<lparr>type = ''sms'', factorId = ''phone-1''\<rparr>]" config_on client_both]
  by simp


section \<open>Phone validation\<close>

lemma rests_CharRange_iff: "t \<in> set (rests (CharRange a b) s) \<longleftrightarrow> (\<exists>x. s = x # t \<and> a \<le> x \<and> x \<le> b)"
  by (cases s) auto

lemma rests_Lit_iff: "t \<in> set (rests (Lit c) s) \<longleftrightarrow> s = c # t"
  by (cases s) auto

lemma rests_Seq_iff: "t \<in> set (rests (Seq r1 r2) s) \<longleftrightarrow> (\<exists>u. u \<in> set (rests r1 s) \<and> t \<in> set (rests r2 u))"
  by auto

lemma rep_rests_iff:
  assumes step: "\<And>s t. t \<in> set (step s) \<longleftrightarrow> (\<exists>x. s = x # t \<and> P x)"
  shows "t \<in> set (rep_rests step lo hi s) \<longleftrightarrow>
   (\<exists>ds. s = ds @ t \<and> (\<forall>d \<in> set ds. P d) \<and> lo \<le> length ds \<and> length ds \<le> hi)"
proof (induction hi arbitrary: lo s)
  case 0
  then show ?case by auto
next
  case (Suc hi)
  show ?case (is "?L = ?R")
  proof
    assume ?L
    then consider "lo = 0" "t = s"
      | s' where "s' \<in> set (step s)" "t \<in> set (rep_rests step (lo - 1) hi s')"
      by (auto split: if_splits)
    then show ?R
    proof cases
      case 1
      then show ?thesis by (intro exI [of _ "[]"]) simp
    next
      case 2
      from 2(1) obtain x where x: "s = x # s'" "P x" by (auto simp: step)
      from 2(2) obtain ds where ds: "s' = ds @ t" "\<forall>d \<in> set ds. P d"
          "lo - 1 \<le> length ds" "length ds \<le> hi"
        by (auto simp: Suc.IH)
      show ?thesis using x ds by (intro exI [of _ "x # ds"]) auto
    qed
  next
    assume ?R
    then obtain ds where ds: "s = ds @ t" "\<forall>d \<in> set ds. P d"
        "lo \<le> length ds" "length ds \<le> Suc hi" by blast
    show ?L
    proof (cases ds)
      case Nil
      with ds show ?thesis by simp
    next
      case (Cons x ds')
      with ds have "s = x # (ds' @ t)" "P x" by auto
      then have 1: "ds' @ t \<in> set (step s)" by (simp add: step)
      have "t \<in> set (rep_rests step (lo - 1) hi (ds' @ t))"
        unfolding Suc.IH using ds Cons by (intro exI [of _ ds']) auto
      with 1 show ?thesis by auto
    qed
  qed
qed

lemma rests_Rep_CharRange_iff:
  "t \<in> set (rests (Rep (CharRange a b) lo hi) s) \<longleftrightarrow>
   (\<exists>ds. s = ds @ t \<and> (\<forall>d \<in> set ds. a \<le> d \<and> d \<le> b) \<and> lo \<le> length ds \<and> length ds \<le> hi)"
proof -
  have "rests (Rep (CharRange a b) lo hi) s = rep_rests (rests (CharRange a b)) lo hi s"
    by (simp only: rests.simps)
  then show ?thesis
    using rep_rests_iff [where step = "rests (CharRange a b)" and P = "\<lambda>x. a \<le> x \<and> x \<le> b", OF rests_CharRange_iff]
    by simp
qed

lemma phone_regex_test_iff:
  "regex_test phone_regex s \<longleftrightarrow>
   (\<exists>d ds. s = CHR ''+'' # d # ds \<and> CHR ''1'' \<le> d \<and> d \<le> CHR ''9'' \<and>
           (\<forall>c \<in> set ds. is_digit c) \<and> 1 \<le> length ds \<and> length ds \<le> 14)"
  unfolding regex_test_def phone_regex_def rests_Seq_iff rests_Lit_iff rests_CharRange_iff
    rests_Rep_CharRange_iff is_digit_def
  by auto

lemma validatePhoneNumber_regex: "isValid (validatePhoneNumber s) \<longleftrightarrow> regex_test phone_regex s"
proof -
  have "regex_test phone_regex s \<Longrightarrow> s \<noteq> []"
    by (auto simp: phone_regex_test_iff)
  then show ?thesis
    by (auto simp: validatePhoneNumber_def safeParse_def phoneSchema_def Let_def)
qed

lemma validatePhoneNumber_example: "isValid (validatePhoneNumber ''+1234567890'')"
  unfolding validatePhoneNumber_regex phone_regex_test_iff by (simp add: is_digit_def)

lemma validatePhoneNumber_plus: "isValid (validatePhoneNumber s) \<Longrightarrow> \<exists>t. s = CHR ''+'' # t"
  unfolding validatePhoneNumber_regex phone_regex_test_iff by blast

lemma validatePhoneNumber_e164:
  assumes "isValid (validatePhoneNumber s)"
  shows "spec_e164 s"
proof -
  from assms obtain d ds where s: "s = CHR ''+'' # d # ds" and d: "CHR ''1'' \<le> d" "d \<le> CHR ''9''"
      and ds: "\<forall>c \<in> set ds. is_digit c" "1 \<le> length ds" "length ds \<le> 14"
    unfolding validatePhoneNumber_regex phone_regex_test_iff by blast
  have "CHR ''0'' \<le> CHR ''1''" by simp
  with d have "is_digit d" unfolding is_digit_def by (meson order_trans)
  with s ds show ?thesis by (simp add: spec_e164_def list_all_iff)
qed

text \<open>
  C8: the phone validator accepts exactly the strings made of a plus sign, one digit
  from 1 to 9 and 1 to 14 further digits. Every accepted string is a plus sign followed by
  2 to 15 digits, every string without the leading plus sign is rejected, and
  \<open>+1234567890\<close> is accepted while \<open>1234567890\<close> is not.
\<close>

theorem phone_validator_shape:
  "(isValid (validatePhoneNumber s) \<longleftrightarrow>
      (\<exists>d ds. s = CHR ''+'' # d # ds \<and> CHR ''1'' \<le> d \<and> d \<le> CHR ''9'' \<and>
              (\<forall>c \<in> set ds. is_digit c) \<and> 1 \<le> length ds \<and> length ds \<le> 14)) \<and>
   (isValid (validatePhoneNumber s) \<longrightarrow> spec_e164 s) \<and>
   ((\<forall>t. s \<noteq> CHR ''+'' # t) \<longrightarrow> \<not> isValid (validatePhoneNumber s)) \<and>
   isValid (validatePhoneNumber ''+1234567890'') \<and>
   \<not> isValid (validatePhoneNumber ''1234567890'')"
proof (intro conjI impI)
  show "isValid (validatePhoneNumber s) \<longleftrightarrow>
      (\<exists>d ds. s = CHR ''+'' # d # ds \<and> CHR ''1'' \<le> d \<and> d \<le> CHR ''9'' \<and>
              (\<forall>c \<in> set ds. is_digit c) \<and> 1 \<le> length ds \<and> length ds \<le> 14)"
    by (simp only: validatePhoneNumber_regex phone_regex_test_iff)
next
  assume "isValid (validatePhoneNumber s)"
  then show "spec_e164 s" by (rule validatePhoneNumber_e164)
next
  assume "\<forall>t. s \<noteq> CHR ''+'' # t"
  then show "\<not> isValid (validatePhoneNumber s)" using validatePhoneNumber_plus by blast
next
  show "isValid (validatePhoneNumber ''+1234567890'')" by (rule validatePhoneNumber_example)
next
  show "\<not> isValid (validatePhoneNumber ''1234567890'')"
    using validatePhoneNumber_plus [of "''1234567890''"] by auto
qed

text \<open>A German mobile number is accepted, so it has the shape; a number without plus sign is not.\<close>

theorem phone_validator_shape_witness:
  "isValid (validatePhoneNumber ''+4915112345678'') \<and> spec_e164 ''+4915112345678'' \<and>
   (\<forall>t. ''4915112345678'' \<noteq> CHR ''+'' # t) \<and>
   \<not> isValid (validatePhoneNumber ''4915112345678'')"
  using phone_validator_shape [of "''+4915112345678''"] phone_validator_shape [of "''4915112345678''"]
  by (simp add: is_digit_def)

text \<open>
  C8 as worded has every plus sign followed by 2 to 15 digits accepted. The expression
  asks for a first digit from 1 to 9, so a number starting with 0 is rejected.
\<close>

theorem phone_validator_rejects_leading_zero:
  "spec_e164 ''+0123456789'' \<and> \<not> isValid (validatePhoneNumber ''+0123456789'')"
  unfolding validatePhoneNumber_regex phone_regex_test_iff
  by (simp add: spec_e164_def is_digit_def)


section \<open>Request handlers\<close>

lemma forgot_reached:
  assumes "ResetPasswordForEmail em \<in> set (snd (forgot_password_POST zod request p))"
  shows "fst (forgot_password_POST zod request p) =
     (case p of
        Throws \<Rightarrow> \<lparr>json_error = Some ''An unexpected error occurred'', http_status = 500\<rparr>
      | Returns e \<Rightarrow> \<lparr>json_error = None, http_status = 200\<rparr>)"
proof -
  note d = forgot_password_POST_def pass_rate_limit_def Let_def
  have lim: "authRateLimit request = None \<or> authRateLimit request = Some (Returns True)"
  proof (cases "authRateLimit request")
    case None
    then show ?thesis by simp
  next
    case (Some l)
    show ?thesis
    proof (cases l)
      case Throws
      with Some assms show ?thesis by (simp add: d)
    next
      case (Returns success)
      with Some assms show ?thesis by (cases success) (simp_all add: d)
    qed
  qed
  obtain body where js: "request_json request = Returns body"
  proof (cases "request_json request")
    case Throws
    with assms lim show ?thesis by (auto simp: d)
  next
    case (Returns body)
    then show ?thesis by (rule that)
  qed
  obtain e pw where body: "body = JsonOther \<and> e = Undefined \<or> body = JsonObject e pw"
    using assms lim js by (cases body) (auto simp: d)
  have valid: "isValid (validateEmail zod e)"
    using assms lim js body by (auto simp: d split: if_splits)
  have cl: "createClient request = Returns ()"
    using assms lim js body valid by (cases "createClient request") (auto simp: d)
  show ?thesis
  proof (cases p)
    case Throws
    with lim js body valid cl show ?thesis by (auto simp: d)
  next
    case (Returns err)
    with lim js body valid cl show ?thesis by (cases err) (auto simp: d)
  qed
qed

lemma signup_reached:
  assumes "SignUp cr \<in> set (snd (signup_POST zod cfg request (Returns r)))"
  shows "fst (signup_POST zod cfg request (Returns r)) =
     (if identities_length (signUp_data r) = Some 0
      then \<lparr>json_error = Some ''This email is already registered. Please try logging in instead.'',
            http_status = 400\<rparr>
      else case authError r of
             Some e \<Rightarrow> \<lparr>json_error = Some (message e), http_status = 400\<rparr>
           | None \<Rightarrow> \<lparr>json_error = None, http_status = 200\<rparr>)"
proof -
  note d = signup_POST_def pass_rate_limit_def Let_def
  let ?lim = "if api_rate_limit_enabled cfg then authRateLimit request else None"
  have lim: "?lim = None \<or> ?lim = Some (Returns True)"
  proof (cases ?lim)
    case None
    then show ?thesis by simp
  next
    case (Some l)
    show ?thesis
    proof (cases l)
      case Throws
      with Some assms show ?thesis unfolding d by simp
    next
      case (Returns success)
      with Some assms show ?thesis unfolding d by (cases success) simp_all
    qed
  qed
  obtain body where js: "request_json request = Returns body"
  proof (cases "request_json request")
    case Throws
    with assms lim show ?thesis unfolding d by auto
  next
    case (Returns body)
    then show ?thesis by (rule that)
  qed
  obtain credentials where v: "form_error (validateFormData zod body) = None"
      "form_data (validateFormData zod body) = Some credentials"
    using assms lim js unfolding d
    by (cases "form_error (validateFormData zod body)"; cases "form_data (validateFormData zod body)") auto
  have cl: "createClient request = Returns ()"
    using assms lim js v unfolding d by (cases "createClient request") auto
  show ?thesis
    using lim js v cl unfolding d by (cases "authError r") auto
qed

text \<open>
  C1: once the password-reset handler has called the provider, its response is the
  empty success response whatever the provider returns, and the generic 500 response when
  the call throws. The sign-up handler does not hide the provider's answer: once it has
  called the provider, it responds 400 with an "already registered" message when the
  returned user has no identities, 400 with the provider's message when the provider
  reports an error, and with the empty success response otherwise.
\<close>

theorem provider_detail_by_handler:
  "(ResetPasswordForEmail em \<in> set (snd (forgot_password_POST zod request p)) \<longrightarrow>
      fst (forgot_password_POST zod request p) =
        (case p of
           Throws \<Rightarrow> \<lparr>json_error = Some ''An unexpected error occurred'', http_status = 500\<rparr>
         | Returns e \<Rightarrow> \<lparr>json_error = None, http_status = 200\<rparr>)) \<and>
   (SignUp cr \<in> set (snd (signup_POST zod cfg request (Returns r))) \<longrightarrow>
      fst (signup_POST zod cfg request (Returns r)) =
        (if identities_length (signUp_data r) = Some 0
         then \<lparr>json_error = Some ''This email is already registered. Please try logging in instead.'',
               http_status = 400\<rparr>
         else case authError r of
                Some e \<Rightarrow> \<lparr>json_error = Some (message e), http_status = 400\<rparr>
              | None \<Rightarrow> \<lparr>json_error = None, http_status = 200\<rparr>))"
  using forgot_reached signup_reached by blast

text \<open>
  A well-formed request: the reset handler answers 200 although the provider reports an
  error, the sign-up handler passes the provider's message on.
\<close>

theorem provider_detail_by_handler_witness:
  "ResetPasswordForEmail (Str ''ann@example.org'') \<in>
     set (snd (forgot_password_POST zod_example request_example
                 (Returns (Some \<lparr>message = ''User not found''\<rparr>)))) \<and>
   fst (forgot_password_POST zod_example request_example
          (Returns (Some \<lparr>message = ''User not found''\<rparr>))) =
     \<lparr>json_error = None, http_status = 200\<rparr> \<and>
   SignUp credentials_example \<in>
     set (snd (signup_POST zod_example config_on request_example (Returns signUp_rejected))) \<and>
   fst (signup_POST zod_example config_on request_example (Returns signUp_rejected)) =
     \<lparr>json_error = Some ''Signups not allowed'', http_status = 400\<rparr>"
  using provider_detail_by_handler [of "Str ''ann@example.org''" zod_example request_example
      "Returns (Some \<lparr>message = ''User not found''\<rparr>)" credentials_example config_on signUp_rejected]
  by (simp add: handler_eval handler_examples)

text \<open>
  C1 as worded has the sign-up handler answer alike whether or not the address is
  registered. The same request gets 400 with an "already registered" message when the
  provider returns a user without identities, and 200 when it returns a new user.
\<close>

theorem signup_reveals_registration:
  "SignUp credentials_example \<in> set (snd (signup_POST zod_example config_off request_example (Returns signUp_registered))) \<and>
   SignUp credentials_example \<in> set (snd (signup_POST zod_example config_off request_example (Returns signUp_fresh))) \<and>
   fst (signup_POST zod_example config_off request_example (Returns signUp_registered)) =
     \<lparr>json_error = Some ''This email is already registered. Please try logging in instead.'',
      http_status = 400\<rparr> \<and>
   fst (signup_POST zod_example config_off request_example (Returns signUp_fresh)) =
     \<lparr>json_error = None, http_status = 200\<rparr>"
  by (simp add: handler_eval handler_examples)

end
